theory Spec2Isabelle
  imports Main "HOL-Library.Sublist"
begin

section \<open>Strings and timestamps\<close>

text \<open>
  Python strings are modelled as HOL strings (lists of 8-bit characters), so the model
  covers texts in the Latin-1 range. On that range \<^verbatim>\<open>str.lower\<close> adds 32 to the
  code points of A-Z and of the accented capitals 192-222 (215, the multiplication sign,
  excepted) and leaves everything else alone; \<^verbatim>\<open>str.upper\<close> is its inverse
  on those letters (the three letters whose capital lies outside Latin-1 are left as they
  are; none of them occurs in the one word the program looks for in upper case);
  \<^verbatim>\<open>str.strip\<close> removes the leading and trailing whitespace characters;
  \<^verbatim>\<open>q in s\<close> is substring containment.
\<close>

definition lower_char :: "char \<Rightarrow> char" where
  "lower_char c =
     (let n = (of_char c :: nat) in
      if (65 \<le> n \<and> n \<le> 90) \<or> (192 \<le> n \<and> n \<le> 222 \<and> n \<noteq> 215)
      then char_of (n + 32) else c)"

definition lower :: "string \<Rightarrow> string" where
  "lower s = map lower_char s"

definition upper_char :: "char \<Rightarrow> char" where
  "upper_char c =
     (let n = (of_char c :: nat) in
      if (97 \<le> n \<and> n \<le> 122) \<or> (224 \<le> n \<and> n \<le> 254 \<and> n \<noteq> 247)
      then char_of (n - 32) else c)"

definition is_space :: "char \<Rightarrow> bool" where
  "is_space c = ((of_char c :: nat) \<in> {9, 10, 11, 12, 13, 28, 29, 30, 31, 32, 133, 160})"

definition strip :: "string \<Rightarrow> string" where
  "strip s = rev (dropWhile is_space (rev (dropWhile is_space s)))"

fun str_in :: "string \<Rightarrow> string \<Rightarrow> bool" where
  "str_in q [] = (q = [])"
| "str_in q (c # cs) = (prefix q (c # cs) \<or> str_in q cs)"

text \<open>
  A naive \<^verbatim>\<open>datetime\<close> is the number of microseconds since 0001-01-01T00:00:00;
  Python compares two naive datetimes exactly as these numbers compare.
\<close>

type_synonym datetime = nat

section \<open>Records and the application state\<close>

text \<open>
  One fetched e-mail: the dict with keys \<^verbatim>\<open>name\<close>, \<^verbatim>\<open>email\<close>,
  \<^verbatim>\<open>subject\<close>, \<^verbatim>\<open>body\<close>, \<^verbatim>\<open>date\<close> built by
  \<^verbatim>\<open>fetch_real_emails\<close>, and the key \<^verbatim>\<open>_search_blob\<close> that
  \<^verbatim>\<open>_build_search_cache\<close> adds (\<open>None\<close> while the key is absent).
\<close>

record email_rec =
  name :: string
  email :: string
  subject :: string
  body :: string
  date :: datetime
  search_blob :: "string option"

text \<open>
  The filter combobox is read-only with the four values below, so its variable is
  modelled by an enumeration; \<open>scope_name\<close> is the text the variable holds.
\<close>

datatype scope = All | Sender | Subject | Body

fun scope_name :: "scope \<Rightarrow> string" where
  "scope_name All = ''All''"
| "scope_name Sender = ''Sender''"
| "scope_name Subject = ''Subject''"
| "scope_name Body = ''Body''"

text \<open>
  What the user is shown: message boxes (title and text) and the transient
  notifications (kind and text); the two notifications that only report a count keep it
  as a number.
\<close>

datatype shown =
    Show_error string string
  | Show_warning string string
  | Show_info string string
  | Notify_error string
  | Notify_warning string
  | Notify_found nat
  | Notify_fetched nat

text \<open>
  A date entry as \<^verbatim>\<open>datetime.strptime(text, '%Y-%m-%d')\<close> sees it: empty,
  rejected, or parsed to the midnight of a day.
\<close>

datatype date_entry = Blank | Malformed | Parsed datetime

text \<open>A worker thread started by \<^verbatim>\<open>fetch_emails\<close>: demo flag and date range.\<close>

record job =
  use_demo :: bool
  job_start :: datetime
  job_end :: datetime

record app =
  emails_data :: "email_rec list"
  filtered_emails :: "email_rec list"
  last_filter :: "string option"
  filter_type_var :: "scope option"
  search_var :: string
  dashboard_exists :: bool
  start_date_var :: date_entry
  end_date_var :: date_entry
  demo_mode_var :: bool
  server_var :: string
  email_var :: string
  password_var :: string
  fetch_button_disabled :: bool
  loading :: bool
  status_label :: string
  threads :: "job list"
  display :: "shown list"

section \<open>The filter\<close>

definition blob_of :: "email_rec \<Rightarrow> string" where
  "blob_of item =
     lower (name item @ [CHR 0x0A] @ email item @ [CHR 0x0A] @ subject item @ [CHR 0x0A] @ body item)"

text \<open>\<^verbatim>\<open>_build_search_cache\<close>: every record of the collection gets its blob.\<close>

definition build_search_cache :: "email_rec list \<Rightarrow> email_rec list" where
  "build_search_cache items = map (\<lambda>item. item\<lparr>search_blob := Some (blob_of item)\<rparr>) items"

text \<open>The inner function \<^verbatim>\<open>matches\<close> of \<^verbatim>\<open>apply_search_filter\<close>.\<close>

fun matches :: "scope \<Rightarrow> string \<Rightarrow> email_rec \<Rightarrow> bool" where
  "matches Sender q item = (str_in q (lower (name item)) \<or> str_in q (lower (email item)))"
| "matches Subject q item = str_in q (lower (subject item))"
| "matches Body q item = str_in q (lower (body item))"
| "matches All q item =
     (let blob = (case search_blob item of None \<Rightarrow> blob_of item | Some b \<Rightarrow> b)
      in str_in q blob)"

text \<open>
  \<^verbatim>\<open>apply_search_filter\<close>. The table redraw of \<^verbatim>\<open>populate_table\<close> reads the
  state and changes none of the fields kept here.
\<close>

definition apply_search_filter :: "string \<Rightarrow> app \<Rightarrow> app" where
  "apply_search_filter query s =
     (let q = lower (strip query);
          filter_type = (case filter_type_var s of None \<Rightarrow> All | Some t \<Rightarrow> t);
          current_filter = q @ ''|'' @ scope_name filter_type
      in if last_filter s = Some current_filter then s
         else
           (let s1 = s\<lparr>last_filter := Some current_filter\<rparr> in
            if q = [] then s1\<lparr>filtered_emails := emails_data s1\<rparr>
            else
              (let s2 = s1\<lparr>filtered_emails := filter (matches filter_type q) (emails_data s1)\<rparr>
               in if filtered_emails s2 \<noteq> []
                  then s2\<lparr>display := display s2 @ [Notify_found (length (filtered_emails s2))]\<rparr>
                  else s2\<lparr>display := display s2 @ [Notify_warning ''No emails match your search'']\<rparr>)))"

section \<open>Dates on the wire\<close>

text \<open>
  An exception is either an \<^verbatim>\<open>imaplib.IMAP4.error\<close> (or a subclass) or any other
  \<^verbatim>\<open>Exception\<close>; the string is its text, \<^verbatim>\<open>str(e)\<close>.
\<close>

datatype exn = IMAP4_error string | Py_error string

fun exn_text :: "exn \<Rightarrow> string" where
  "exn_text (IMAP4_error m) = m"
| "exn_text (Py_error m) = m"

text \<open>
  \<^verbatim>\<open>end_date + timedelta(days=1)\<close> raises \<^verbatim>\<open>OverflowError\<close> past
  9999-12-31; \<^verbatim>\<open>strftime('%d-%b-%Y')\<close> prints the calendar day (two digits), the
  English month abbreviation and the year (four digits). The conversion from a day number
  to year, month and day is the one of the standard library's \<^verbatim>\<open>datetime\<close>.
\<close>

definition one_day :: nat where
  "one_day = 86400000000"

definition max_datetime :: datetime where
  "max_datetime = 3652059 * one_day - 1"

definition add_one_day :: "datetime \<Rightarrow> exn + datetime" where
  "add_one_day d =
     (if d + one_day > max_datetime then Inl (Py_error ''date value out of range'')
      else Inr (d + one_day))"

definition days_before_month :: "nat list" where
  "days_before_month = [0, 0, 31, 59, 90, 120, 151, 181, 212, 243, 273, 304, 334]"

definition days_in_month :: "nat list" where
  "days_in_month = [0, 31, 28, 31, 30, 31, 30, 31, 31, 30, 31, 30, 31]"

definition ord2ymd :: "nat \<Rightarrow> nat \<times> nat \<times> nat" where
  "ord2ymd ordinal =
     (let n0 = ordinal - 1;
          n400 = n0 div 146097; r400 = n0 mod 146097;
          n100 = r400 div 36524; r100 = r400 mod 36524;
          n4 = r100 div 1461; r4 = r100 mod 1461;
          n1 = r4 div 365; n = r4 mod 365;
          year = n400 * 400 + 1 + n100 * 100 + n4 * 4 + n1
      in if n1 = 4 \<or> n100 = 4 then (year - 1, 12, 31)
         else
           (let leapyear = (n1 = 3 \<and> (n4 \<noteq> 24 \<or> n100 = 3));
                month = (n + 50) div 32;
                preceding = days_before_month ! month + (if month > 2 \<and> leapyear then 1 else 0)
            in if preceding > n
               then (let month1 = month - 1;
                         preceding1 = preceding -
                           (days_in_month ! month1 + (if month1 = 2 \<and> leapyear then 1 else 0))
                     in (year, month1, n - preceding1 + 1))
               else (year, month, n - preceding + 1)))"

definition month_abbr :: "string list" where
  "month_abbr = [[], ''Jan'', ''Feb'', ''Mar'', ''Apr'', ''May'', ''Jun'',
                 ''Jul'', ''Aug'', ''Sep'', ''Oct'', ''Nov'', ''Dec'']"

definition digit :: "nat \<Rightarrow> char" where
  "digit n = char_of (48 + n)"

definition strftime_d_b_Y :: "datetime \<Rightarrow> string" where
  "strftime_d_b_Y dt =
     (case ord2ymd (dt div one_day + 1) of (y, m, d) \<Rightarrow>
        [digit (d div 10), digit (d mod 10)] @ ''-'' @ month_abbr ! m @ ''-'' @
        [digit (y div 1000), digit (y div 100 mod 10), digit (y div 10 mod 10), digit (y mod 10)])"

text \<open>Lines 1097-1100 of \<^verbatim>\<open>fetch_real_emails\<close>: the search criteria.\<close>

definition search_criteria :: "datetime \<Rightarrow> datetime \<Rightarrow> exn + string" where
  "search_criteria start_date end_date =
     (let since_str = strftime_d_b_Y start_date in
      case add_one_day end_date of
        Inl e \<Rightarrow> Inl e
      | Inr before_date \<Rightarrow>
          (let before_str = strftime_d_b_Y before_date in
           Inr (''(SINCE '' @ [CHR 0x22] @ since_str @ [CHR 0x22] @ '' BEFORE '' @
                [CHR 0x22] @ before_str @ [CHR 0x22] @ '')'')))"

section \<open>Messages as the e-mail package presents them\<close>

text \<open>
  The parsing of RFC 822 text is the work of Python's \<^verbatim>\<open>email\<close> package; a message
  is modelled by what that package answers for it.

  The Date header: absent (or empty), rejected by \<^verbatim>\<open>parsedate_to_datetime\<close> (or by
  the conversion to local time), or a value: naive as parsed, or the local naive time of a
  zone-aware one.
\<close>

datatype date_header = Date_absent | Date_unparseable | Date_naive datetime | Date_aware datetime

text \<open>
  A header as \<^verbatim>\<open>email.header.decode_header\<close> splits it: a text part, bytes with a
  declared charset (kept is what \<^verbatim>\<open>part.decode(encoding)\<close> does: raise, for an
  unknown charset or undecodable bytes, or return text), or bytes with no charset (kept is
  the text that \<^verbatim>\<open>part.decode('utf-8', errors='ignore')\<close> returns).
\<close>

datatype hpart = Text_part string | Charset_part "exn + string" | Raw_part string

text \<open>
  A part met by \<^verbatim>\<open>walk()\<close>: its content type and its decoded payload
  (\<open>None\<close> when \<^verbatim>\<open>get_payload(decode=True)\<close> is empty or \<^verbatim>\<open>None\<close>,
  otherwise its text decoded as UTF-8 with errors ignored); or a part whose handling
  raises.
\<close>

datatype mime_part = Mime_part string "string option" | Broken_part

datatype msg_body = Single_part "string option" | Single_broken | Multipart "mime_part list"

text \<open>
  \<open>parseaddr\<close> is what \<^verbatim>\<open>email.utils.parseaddr\<close> answers for the decoded
  From header of this message.
\<close>

record message =
  date_hdr :: date_header
  subject_hdr :: "hpart list option"
  from_hdr :: "hpart list option"
  parseaddr :: "exn + string \<times> string"
  content :: msg_body

section \<open>The normalizer\<close>

text \<open>\<^verbatim>\<open>decode_header\<close>: the loop over the parts, then the method.\<close>

fun decode_parts :: "hpart list \<Rightarrow> string \<Rightarrow> exn + string" where
  "decode_parts [] decoded_string = Inr decoded_string"
| "decode_parts (Text_part t # ps) decoded_string = decode_parts ps (decoded_string @ t)"
| "decode_parts (Charset_part (Inl e) # ps) decoded_string = Inl e"
| "decode_parts (Charset_part (Inr t) # ps) decoded_string = decode_parts ps (decoded_string @ t)"
| "decode_parts (Raw_part t # ps) decoded_string = decode_parts ps (decoded_string @ t)"

definition decode_header :: "hpart list option \<Rightarrow> exn + string" where
  "decode_header header_value =
     (case header_value of None \<Rightarrow> Inr [] | Some decoded_parts \<Rightarrow> decode_parts decoded_parts [])"

text \<open>
  \<^verbatim>\<open>extract_email_body\<close>: the walk over the parts with the remaining budget; an
  exception leaves the loop and the chunks gathered so far are joined.
\<close>

definition MAX_LEN :: nat where
  "MAX_LEN = 2000"

fun walk_parts :: "mime_part list \<Rightarrow> nat \<Rightarrow> string list" where
  "walk_parts [] remaining = []"
| "walk_parts (Broken_part # ps) remaining = []"
| "walk_parts (Mime_part content_type payload # ps) remaining =
     (if content_type = ''text/plain'' then
        (case payload of
           None \<Rightarrow> walk_parts ps remaining
         | Some t \<Rightarrow>
             if t = [] then walk_parts ps remaining
             else if length t \<ge> remaining then [take remaining t]
             else t # walk_parts ps (remaining - length t))
      else walk_parts ps remaining)"

definition extract_email_body :: "message \<Rightarrow> string" where
  "extract_email_body email_message =
     (case content email_message of
        Multipart ps \<Rightarrow> concat (walk_parts ps MAX_LEN)
      | Single_part payload \<Rightarrow>
          (case payload of None \<Rightarrow> [] | Some t \<Rightarrow> take MAX_LEN t)
      | Single_broken \<Rightarrow> [])"

text \<open>\<^verbatim>\<open>parse_sender\<close>; \<^verbatim>\<open>strip('"')\<close> removes double quotes at both ends.\<close>

definition strip_quotes :: "string \<Rightarrow> string" where
  "strip_quotes t = rev (dropWhile (\<lambda>c. c = CHR 0x22) (rev (dropWhile (\<lambda>c. c = CHR 0x22) t)))"

definition parse_sender :: "message \<Rightarrow> string \<Rightarrow> string \<times> string" where
  "parse_sender email_message from_header =
     (case parseaddr email_message of
        Inl e \<Rightarrow> (from_header, from_header)
      | Inr (nm, addr) \<Rightarrow> ((if nm \<noteq> [] then strip_quotes (strip nm) else addr), addr))"

text \<open>The date of a message, lines 1122-1130: \<open>None\<close> for \<^verbatim>\<open>msg_dt = None\<close>.\<close>

fun msg_dt :: "date_header \<Rightarrow> datetime option" where
  "msg_dt Date_absent = None"
| "msg_dt Date_unparseable = None"
| "msg_dt (Date_naive d) = Some d"
| "msg_dt (Date_aware d) = Some d"

text \<open>
  The body of the loop of \<^verbatim>\<open>fetch_real_emails\<close> for one parsed message, lines
  1121-1149: the record appended, or the exception that leaves the loop.
\<close>

definition build_record :: "datetime \<Rightarrow> message \<Rightarrow> exn + email_rec" where
  "build_record start_date email_message =
     (case decode_header (subject_hdr email_message) of
        Inl e \<Rightarrow> Inl e
      | Inr subj \<Rightarrow>
          (case decode_header (from_hdr email_message) of
             Inl e \<Rightarrow> Inl e
           | Inr from_header \<Rightarrow>
               (let bd = extract_email_body email_message;
                    (nm, email_addr) = parse_sender email_message from_header
                in Inr \<lparr>name = nm, email = email_addr, subject = subj,
                        body = (if length bd > 200 then take 200 bd @ ''...'' else bd),
                        date = (case msg_dt (date_hdr email_message) of
                                  None \<Rightarrow> start_date | Some d \<Rightarrow> d),
                        search_blob = None\<rparr>)))"

section \<open>The IMAP session\<close>

text \<open>
  The mail server is the environment of \<^verbatim>\<open>fetch_real_emails\<close>: what each call of
  \<^verbatim>\<open>imaplib\<close> does, raise or return. A fetched item is empty, or bytes that
  \<^verbatim>\<open>email.message_from_bytes\<close> rejects, or a parsed message. The search answers with
  a status and the message numbers (the split of \<^verbatim>\<open>messages[0]\<close>, empty when that
  is empty).
\<close>

datatype message_data = No_data | Unparsable | Parsed_msg message

record server =
  imap_connect :: "string \<Rightarrow> nat \<Rightarrow> exn option"
  imap_login :: "string \<Rightarrow> string \<Rightarrow> exn option"
  imap_select :: "exn + string"
  imap_search :: "string \<Rightarrow> exn + string \<times> nat list"
  imap_fetch :: "nat \<Rightarrow> exn + string \<times> message_data"

text \<open>The commands issued to the server, in order.\<close>

datatype cmd =
    CONNECT string nat
  | LOGIN string string
  | SELECT
  | SEARCH string
  | FETCH nat
  | CLOSE
  | LOGOUT

text \<open>\<^verbatim>\<open>get_server_config\<close>: host and port, Gmail when the selection is unknown.\<close>

definition get_server_config :: "app \<Rightarrow> string \<times> nat" where
  "get_server_config s =
     (if server_var s = ''Gmail'' then (''imap.gmail.com'', 993)
      else if server_var s = ''Outlook'' then (''outlook.office365.com'', 993)
      else if server_var s = ''Custom'' then (''imap.example.com'', 993)
      else (''imap.gmail.com'', 993))"

text \<open>
  The loop over the message numbers, lines 1110-1149: a fetch that is not OK, an empty
  item and unparsable bytes are skipped with \<^verbatim>\<open>continue\<close>; an exception of the
  fetch or of the rest of the body leaves the loop.
\<close>

definition logged :: "cmd \<Rightarrow> cmd list \<times> 'a \<Rightarrow> cmd list \<times> 'a" where
  "logged c p = (c # fst p, snd p)"

fun fetch_loop :: "server \<Rightarrow> datetime \<Rightarrow> nat list \<Rightarrow> cmd list \<times> (exn + email_rec list)" where
  "fetch_loop srv start_date [] = ([], Inr [])"
| "fetch_loop srv start_date (email_id # email_ids) =
     (case imap_fetch srv email_id of
        Inl e \<Rightarrow> ([FETCH email_id], Inl e)
      | Inr (status, msg_data) \<Rightarrow>
          if status \<noteq> ''OK'' then logged (FETCH email_id) (fetch_loop srv start_date email_ids)
          else
            (case msg_data of
               No_data \<Rightarrow> logged (FETCH email_id) (fetch_loop srv start_date email_ids)
             | Unparsable \<Rightarrow> logged (FETCH email_id) (fetch_loop srv start_date email_ids)
             | Parsed_msg email_message \<Rightarrow>
                 (case build_record start_date email_message of
                    Inl e \<Rightarrow> ([FETCH email_id], Inl e)
                  | Inr r \<Rightarrow>
                      logged (FETCH email_id)
                        (map_prod id (map_sum id ((#) r))
                           (fetch_loop srv start_date email_ids)))))"

text \<open>
  \<^verbatim>\<open>emails_data.sort(key=lambda x: x['date'], reverse=True)\<close>: Python reverses the
  list, sorts it stably by ascending key and reverses it again.
\<close>

definition sort_newest_first :: "email_rec list \<Rightarrow> email_rec list" where
  "sort_newest_first xs = rev (sort_key date (rev xs))"

text \<open>The body of the \<^verbatim>\<open>try\<close> once the connection is open, lines 1090-1153.\<close>

definition session ::
  "server \<Rightarrow> string \<Rightarrow> string \<Rightarrow> datetime \<Rightarrow> datetime \<Rightarrow> cmd list \<times> (exn + email_rec list)" where
  "session srv email_user email_pass start_date end_date =
     logged (LOGIN email_user email_pass)
       (case imap_login srv email_user email_pass of
          Some e \<Rightarrow> ([], Inl e)
        | None \<Rightarrow>
            logged SELECT
              (case imap_select srv of
                 Inl e \<Rightarrow> ([], Inl e)
               | Inr status \<Rightarrow>
                   if status \<noteq> ''OK'' then ([], Inl (Py_error ''Unable to select INBOX''))
                   else
                     (case search_criteria start_date end_date of
                        Inl e \<Rightarrow> ([], Inl e)
                      | Inr criteria \<Rightarrow>
                          logged (SEARCH criteria)
                            (case imap_search srv criteria of
                               Inl e \<Rightarrow> ([], Inl e)
                             | Inr (status, email_ids) \<Rightarrow>
                                 if status \<noteq> ''OK'' then ([], Inl (Py_error ''IMAP search failed''))
                                 else if email_ids = [] then ([], Inr [])
                                 else map_prod id (map_sum id sort_newest_first)
                                        (fetch_loop srv start_date email_ids)))))"

text \<open>The two \<^verbatim>\<open>except\<close> clauses, lines 1155-1158.\<close>

fun reraise :: "exn \<Rightarrow> exn" where
  "reraise (IMAP4_error m) = Py_error (''IMAP authentication/search error: '' @ m)"
| "reraise (Py_error m) = Py_error (''IMAP connection failed: '' @ m)"

text \<open>
  \<^verbatim>\<open>fetch_real_emails\<close>: the credentials check, the connection, the session, the
  handlers, and the \<^verbatim>\<open>finally\<close> clause that closes and logs out when the connection
  was opened.
\<close>

definition fetch_real_emails ::
  "server \<Rightarrow> app \<Rightarrow> datetime \<Rightarrow> datetime \<Rightarrow> cmd list \<times> (exn + email_rec list)" where
  "fetch_real_emails srv s start_date end_date =
     (let email_user = strip (email_var s);
          email_pass = strip (password_var s)
      in if email_user = [] \<or> email_pass = []
         then ([], Inl (Py_error ''Email and password are required when demo mode is off.''))
         else
           (case get_server_config s of (host, port) \<Rightarrow>
              logged (CONNECT host port)
                (case imap_connect srv host port of
                   Some e \<Rightarrow> ([], Inl (reraise e))
                 | None \<Rightarrow>
                     (case session srv email_user email_pass start_date end_date of
                        (log, result) \<Rightarrow> (log @ [CLOSE, LOGOUT], map_sum reraise id result)))))"

section \<open>The demo data\<close>

text \<open>
  \<^verbatim>\<open>load_demo_emails_between\<close> over the cached data set: the records from the
  midnight of the start day to 23:59:59 of the end day.
\<close>

definition load_demo_emails_between ::
  "email_rec list \<Rightarrow> datetime \<Rightarrow> datetime \<Rightarrow> email_rec list" where
  "load_demo_emails_between data start_date end_date =
     (let start_key = (start_date div one_day) * one_day;
          end_key = (end_date div one_day) * one_day + 86399000000
      in filter (\<lambda>item. start_key \<le> date item \<and> date item \<le> end_key) data)"

section \<open>Starting a retrieval and receiving its result\<close>

function str_nat :: "nat \<Rightarrow> string" where
  "str_nat n = (if n < 10 then [digit n] else str_nat (n div 10) @ [digit (n mod 10)])"
  by pat_completeness auto
termination
  by (relation "measure (\<lambda>n. n)") auto

declare str_nat.simps [simp del]

text \<open>
  \<^verbatim>\<open>fetch_emails\<close>: the validation of the two dates, then the loading state, the
  disabled button and the worker thread.
\<close>

definition fetch_emails :: "app \<Rightarrow> app" where
  "fetch_emails s =
     (if start_date_var s = Blank \<or> end_date_var s = Blank
      then s\<lparr>display := display s @ [Show_error ''Error'' ''Please select both start and end dates.'']\<rparr>
      else
        (case (start_date_var s, end_date_var s) of
           (Parsed start_date, Parsed end_date) \<Rightarrow>
             if start_date > end_date
             then s\<lparr>display := display s @ [Show_error ''Error'' ''Start date cannot be after end date.'']\<rparr>
             else s\<lparr>status_label := ''Fetching emails...'', loading := True,
                    fetch_button_disabled := True,
                    threads := threads s @
                      [\<lparr>use_demo = demo_mode_var s, job_start = start_date, job_end = end_date\<rparr>]\<rparr>
         | _ \<Rightarrow> s\<lparr>display := display s @ [Show_error ''Error'' ''Invalid date format. Use YYYY-MM-DD.'']\<rparr>))"

text \<open>
  The function \<^verbatim>\<open>worker\<close> inside \<^verbatim>\<open>fetch_emails\<close>: what its queued
  callback hands to \<^verbatim>\<open>_on_fetch_done\<close>. After a retrieval that returned, the
  callback passes the data, no error and the status text. After a retrieval that raised,
  the callback queued in the \<^verbatim>\<open>except\<close> clause refers to the variable
  \<^verbatim>\<open>exc\<close>, which Python unbinds when that clause ends; when the interface thread
  runs the callback it raises \<^verbatim>\<open>NameError\<close> before \<^verbatim>\<open>_on_fetch_done\<close> is
  called, so nothing is handed over: \<open>None\<close>.
\<close>

definition worker ::
  "server \<Rightarrow> email_rec list \<Rightarrow> app \<Rightarrow> job \<Rightarrow>
     (email_rec list \<times> exn option \<times> string) option" where
  "worker srv dataset s j =
     (if use_demo j
      then (let data = load_demo_emails_between dataset (job_start j) (job_end j)
            in Some (data, None, ''Demo: Found '' @ str_nat (length data) @ '' emails''))
      else
        (case snd (fetch_real_emails srv s (job_start j) (job_end j)) of
           Inr data \<Rightarrow> Some (data, None, ''Found '' @ str_nat (length data) @ '' emails'')
         | Inl exc \<Rightarrow> None))"

definition upper :: "string \<Rightarrow> string" where
  "upper t = map upper_char t"

definition auth_hint :: string where
  "auth_hint = ''For Gmail, enable IMAP and use an App Password.'' @ [CHR 0x0A] @
     ''For Outlook/Office365, Basic Auth may be disabled; try an App Password or use Demo Data.''"

text \<open>\<^verbatim>\<open>_on_fetch_done\<close>.\<close>

definition on_fetch_done :: "email_rec list \<Rightarrow> exn option \<Rightarrow> string \<Rightarrow> app \<Rightarrow> app" where
  "on_fetch_done data error status_text s =
     (let s0 = s\<lparr>loading := False, fetch_button_disabled := False\<rparr> in
      case error of
        Some exc \<Rightarrow>
          (let err = exn_text exc;
               s1 = (if str_in ''AUTHENTICATIONFAILED'' (upper err)
                     then s0\<lparr>display := display s0 @
                            [Notify_error ''Authentication failed - check credentials'',
                             Show_error ''Authentication Failed''
                               (''Login rejected by server.'' @ [CHR 0x0A, CHR 0x0A] @
                                ''Provider: '' @ server_var s0 @ [CHR 0x0A, CHR 0x0A] @
                                err @ [CHR 0x0A, CHR 0x0A] @ auth_hint)]\<rparr>
                     else s0\<lparr>display := display s0 @
                            [Notify_error (''Fetch failed: '' @ take 50 err @ ''...''),
                             Show_error ''Error'' (''Failed to fetch emails: '' @ err)]\<rparr>)
           in s1\<lparr>status_label := ''Error occurred''\<rparr>)
      | None \<Rightarrow>
          (let s1 = s0\<lparr>emails_data := data\<rparr>;
               s2 = s1\<lparr>emails_data := build_search_cache (emails_data s1)\<rparr>;
               s3 = s2\<lparr>filtered_emails := emails_data s2, status_label := status_text\<rparr>
           in if emails_data s3 = []
              then s3\<lparr>display := display s3 @
                     [Notify_warning ''No emails found for selected date range'',
                      Show_info ''No Emails'' ''No emails found for the selected date range.'']\<rparr>
              else s3\<lparr>display := display s3 @
                     [Notify_fetched (length (emails_data s3)),
                      Show_info ''Success''
                        (''Successfully fetched '' @ str_nat (length (emails_data s3)) @ '' emails.'')]\<rparr>))"

text \<open>
  The end of a worker thread: the thread at position \<open>i\<close> of those running finishes.
  When its callback reaches \<^verbatim>\<open>_on_fetch_done\<close>, that function runs on the
  interface thread; when the callback dies, the thread is gone and nothing else changes
  (the loading state stays and the button stays disabled).
\<close>

definition complete :: "server \<Rightarrow> email_rec list \<Rightarrow> nat \<Rightarrow> app \<Rightarrow> app" where
  "complete srv dataset i s =
     (if i < length (threads s)
      then (case worker srv dataset s (threads s ! i) of
              None \<Rightarrow> s\<lparr>threads := take i (threads s) @ drop (Suc i) (threads s)\<rparr>
            | Some (data, error, status_text) \<Rightarrow>
                on_fetch_done data error status_text
                  (s\<lparr>threads := take i (threads s) @ drop (Suc i) (threads s)\<rparr>))
      else s)"

section \<open>The dashboard and the events of the interface\<close>

text \<open>
  \<^verbatim>\<open>create_dashboard_screen\<close> creates the filter variable (All) and an empty search
  box and shows the whole collection; \<^verbatim>\<open>open_dashboard\<close> calls it when there is
  data and no dashboard window yet.
\<close>

definition create_dashboard_screen :: "app \<Rightarrow> app" where
  "create_dashboard_screen s =
     s\<lparr>filter_type_var := Some All, search_var := [],
       filtered_emails := emails_data s, dashboard_exists := True\<rparr>"

definition open_dashboard :: "app \<Rightarrow> app" where
  "open_dashboard s =
     (if emails_data s = []
      then s\<lparr>display := display s @ [Show_warning ''No Data'' ''Please fetch emails first.'']\<rparr>
      else if dashboard_exists s then s
      else create_dashboard_screen s)"

text \<open>The state after \<^verbatim>\<open>__init__\<close>, for given contents of the entry fields.\<close>

definition init :: "date_entry \<Rightarrow> date_entry \<Rightarrow> string \<Rightarrow> string \<Rightarrow> string \<Rightarrow> bool \<Rightarrow> app" where
  "init d1 d2 srv_name user pass demo =
     \<lparr>emails_data = [], filtered_emails = [], last_filter = None, filter_type_var = None,
      search_var = [], dashboard_exists = False,
      start_date_var = d1, end_date_var = d2, demo_mode_var = demo, server_var = srv_name,
      email_var = user, password_var = pass, fetch_button_disabled = False, loading = False,
      status_label = [], threads = [], display = []\<rparr>"

text \<open>
  What can happen to the application: the Enter and Ctrl+R bindings (and the fetch
  button) call \<^verbatim>\<open>fetch_emails\<close>; a result arrives at \<^verbatim>\<open>_on_fetch_done\<close>;
  the user types a query, chooses a filter scope, opens or closes the dashboard, or edits
  the dates.
\<close>

datatype event =
    Key_fetch
  | Fetch_done "email_rec list" "exn option" string
  | Type_query string
  | Choose_scope scope
  | Open_dashboard
  | Close_dashboard
  | Set_dates date_entry date_entry

fun step :: "app \<Rightarrow> event \<Rightarrow> app" where
  "step s Key_fetch = fetch_emails s"
| "step s (Fetch_done data error status_text) = on_fetch_done data error status_text s"
| "step s (Type_query query) = apply_search_filter query (s\<lparr>search_var := query\<rparr>)"
| "step s (Choose_scope t) = apply_search_filter (search_var s) (s\<lparr>filter_type_var := Some t\<rparr>)"
| "step s Open_dashboard = open_dashboard s"
| "step s Close_dashboard = s\<lparr>dashboard_exists := False\<rparr>"
| "step s (Set_dates d1 d2) = s\<lparr>start_date_var := d1, end_date_var := d2\<rparr>"

definition run :: "app \<Rightarrow> event list \<Rightarrow> app" where
  "run s evs = foldl step s evs"

section \<open>Notions used by the statements\<close>

text \<open>
  The message numbers the search returned, the messages among them that were fetched
  with status OK and parsed (in fetch order), and the search criteria found in a log of
  commands.
\<close>

definition found_ids :: "server \<Rightarrow> datetime \<Rightarrow> datetime \<Rightarrow> nat list" where
  "found_ids srv start_date end_date =
     (case search_criteria start_date end_date of
        Inl e \<Rightarrow> []
      | Inr criteria \<Rightarrow>
          (case imap_search srv criteria of Inl e \<Rightarrow> [] | Inr (status, email_ids) \<Rightarrow> email_ids))"

fun fetched_messages :: "server \<Rightarrow> nat list \<Rightarrow> message list" where
  "fetched_messages srv [] = []"
| "fetched_messages srv (i # ids) =
     (case imap_fetch srv i of
        Inr (status, Parsed_msg m) \<Rightarrow>
          if status = ''OK'' then m # fetched_messages srv ids else fetched_messages srv ids
      | _ \<Rightarrow> fetched_messages srv ids)"

fun sent_criteria :: "cmd list \<Rightarrow> string list" where
  "sent_criteria [] = []"
| "sent_criteria (SEARCH c # cs) = c # sent_criteria cs"
| "sent_criteria (_ # cs) = sent_criteria cs"

text \<open>
  The invariant behind the skip of \<^verbatim>\<open>apply_search_filter\<close>: whenever the remembered
  filter is the one of an empty query, the whole collection is shown.
\<close>

definition empty_query_shows_all :: "app \<Rightarrow> bool" where
  "empty_query_shows_all s =
     (\<forall>t. last_filter s = Some (''|'' @ scope_name t) \<longrightarrow> filtered_emails s = emails_data s)"

text \<open>
  A row of the table as \<^verbatim>\<open>populate_table\<close> fills it (sender, address, subject
  and the body cell, cut to 100 characters), and the body text that
  \<^verbatim>\<open>on_email_double_click\<close> puts into the detail window for a selected row: the
  \<^verbatim>\<open>body\<close> of the first record of the active list with the same sender, address
  and subject, or else the body cell of the row.
\<close>

record row =
  col_name :: string
  col_email :: string
  col_subject :: string
  col_body :: string

definition table_row :: "email_rec \<Rightarrow> row" where
  "table_row email_data =
     \<lparr>col_name = name email_data, col_email = email email_data,
      col_subject = subject email_data,
      col_body = (if length (body email_data) > 100
                  then take 100 (body email_data) @ ''...'' else body email_data)\<rparr>"

definition full_body :: "email_rec list \<Rightarrow> row \<Rightarrow> string" where
  "full_body active_list vals =
     (case find (\<lambda>email_data. name email_data = col_name vals \<and>
                    email email_data = col_email vals \<and>
                    subject email_data = col_subject vals) active_list of
        Some full_email_data \<Rightarrow> body full_email_data
      | None \<Rightarrow> col_body vals)"

section \<open>Concrete mailboxes\<close>

text \<open>
  A well-behaved server holding a mailbox: every command succeeds, the search returns
  all message numbers, a fetch of an unknown number answers NO.
\<close>

definition mailbox_server :: "(nat \<times> message_data) list \<Rightarrow> server" where
  "mailbox_server box =
     \<lparr>imap_connect = (\<lambda>host port. None),
      imap_login = (\<lambda>user pass. None),
      imap_select = Inr ''OK'',
      imap_search = (\<lambda>criteria. Inr (''OK'', map fst box)),
      imap_fetch = (\<lambda>i. case map_of box i of
                            None \<Rightarrow> Inr (''NO'', No_data)
                          | Some md \<Rightarrow> Inr (''OK'', md))\<rparr>"

text \<open>Midnight of 2024-01-01 (day number 738886), and an account with that range.\<close>

definition jan1 :: datetime where
  "jan1 = 738885 * one_day"

definition user0 :: app where
  "user0 = init (Parsed jan1) (Parsed jan1) ''Gmail'' ''user@example.com'' ''secret'' False"

definition plain_msg :: "date_header \<Rightarrow> string \<Rightarrow> string \<Rightarrow> message" where
  "plain_msg dh subj text =
     \<lparr>date_hdr = dh, subject_hdr = Some [Text_part subj],
      from_hdr = Some [Text_part ''Alice <alice@example.com>''],
      parseaddr = Inr (''Alice'', ''alice@example.com''),
      content = Single_part (Some text)\<rparr>"

text \<open>
  A message whose Subject is \<^verbatim>\<open>=?x-unknown?q?abc?=\<close>: one part of bytes with the
  declared charset \<^verbatim>\<open>x-unknown\<close>, for which \<^verbatim>\<open>part.decode(encoding)\<close> raises
  \<^verbatim>\<open>LookupError\<close>.
\<close>

definition odd_charset_msg :: message where
  "odd_charset_msg =
     (plain_msg (Date_naive (jan1 + 1)) [] ''hello'')
       \<lparr>subject_hdr := Some [Charset_part (Inl (Py_error ''unknown encoding: x-unknown''))]\<rparr>"

definition long_msg :: message where
  "long_msg = plain_msg (Date_naive (jan1 + 1)) ''Report'' (replicate 201 CHR ''a'')"

text \<open>
  Two records of a collection, and a server that rejects the login as Gmail does.
\<close>

definition invoice_rec :: email_rec where
  "invoice_rec =
     \<lparr>name = ''Alice'', email = ''alice@example.com'', subject = ''Invoice Attached'',
      body = ''Please find the details.'', date = jan1 + 7, search_blob = None\<rparr>"

definition meeting_rec :: email_rec where
  "meeting_rec =
     \<lparr>name = ''Bob'', email = ''bob@example.com'', subject = ''Meeting'',
      body = ''Tomorrow at 2 PM.'', date = jan1 + 3, search_blob = None\<rparr>"

definition rejecting_server :: server where
  "rejecting_server =
     (mailbox_server [])
       \<lparr>imap_login := (\<lambda>user pass.
          Some (IMAP4_error ''[AUTHENTICATIONFAILED] Invalid credentials (Failure)''))\<rparr>"

text \<open>
  A mailbox of three messages, the first and the third with the same date; and one of
  three messages of which the second has a Date header that does not parse and the third
  has none, next to an item whose bytes do not parse.
\<close>

definition tie_box :: "(nat \<times> message_data) list" where
  "tie_box =
     [(1, Parsed_msg (plain_msg (Date_naive (jan1 + 5)) ''first'' ''text'')),
      (2, Parsed_msg (plain_msg (Date_naive (jan1 + 9)) ''second'' ''text'')),
      (3, Parsed_msg (plain_msg (Date_naive (jan1 + 5)) ''third'' ''text''))]"

definition undated_box :: "(nat \<times> message_data) list" where
  "undated_box =
     [(1, Parsed_msg (plain_msg (Date_aware (jan1 + 9)) ''first'' ''text'')),
      (2, Parsed_msg (plain_msg Date_unparseable ''second'' ''text'')),
      (3, Unparsable),
      (4, Parsed_msg (plain_msg Date_absent ''third'' ''text''))]"

definition alice_rec :: "string \<Rightarrow> datetime \<Rightarrow> email_rec" where
  "alice_rec subj d =
     \<lparr>name = ''Alice'', email = ''alice@example.com'', subject = subj, body = ''text'',
      date = d, search_blob = None\<rparr>"

text \<open>
  A mailbox whose second message has the Subject with the unknown charset, the same
  mailbox without that message, and a mailbox with one message of 201 characters of
  body together with the record the loop builds for it.
\<close>

definition odd_box :: "(nat \<times> message_data) list" where
  "odd_box =
     [(1, Parsed_msg (plain_msg (Date_naive (jan1 + 5)) ''first'' ''text'')),
      (2, Parsed_msg odd_charset_msg),
      (3, Parsed_msg (plain_msg (Date_naive (jan1 + 9)) ''third'' ''text''))]"

definition even_box :: "(nat \<times> message_data) list" where
  "even_box =
     [(1, Parsed_msg (plain_msg (Date_naive (jan1 + 5)) ''first'' ''text'')),
      (3, Parsed_msg (plain_msg (Date_naive (jan1 + 9)) ''third'' ''text''))]"

definition long_box :: "(nat \<times> message_data) list" where
  "long_box = [(1, Parsed_msg long_msg)]"

definition long_rec :: email_rec where
  "long_rec =
     \<lparr>name = ''Alice'', email = ''alice@example.com'', subject = ''Report'',
      body = replicate 200 CHR ''a'' @ ''...'', date = jan1 + 1, search_blob = None\<rparr>"

text \<open>
  Servers that fail in one way each: a login rejected in the words of Outlook, a search
  answered with NO, and a host that cannot be reached.
\<close>

definition login_failed_server :: server where
  "login_failed_server =
     (mailbox_server []) \<lparr>imap_login := (\<lambda>user pass. Some (IMAP4_error ''LOGIN failed.''))\<rparr>"

definition search_no_server :: server where
  "search_no_server = (mailbox_server []) \<lparr>imap_search := (\<lambda>criteria. Inr (''NO'', []))\<rparr>"

definition unreachable_server :: server where
  "unreachable_server =
     (mailbox_server []) \<lparr>imap_connect := (\<lambda>host port. Some (Py_error ''timed out''))\<rparr>"

section \<open>Properties\<close>

subsection \<open>The search cache\<close>

lemma blob_of_search_blob_update [simp]: "blob_of (r\<lparr>search_blob := x\<rparr>) = blob_of r"
  by (simp add: blob_of_def)

lemma matches_cached:
  "matches t q (r\<lparr>search_blob := Some (blob_of r)\<rparr>) = matches t q (r\<lparr>search_blob := None\<rparr>)"
  by (cases t) simp_all

text \<open>
  C10. Matching in scope All against the blob stored by \<^verbatim>\<open>_build_search_cache\<close>
  gives the same answer as matching against the blob computed on the fly from the fields
  of the record, for every record and query; hence, for every scope, filtering the
  collection after the cache was built selects the same records as filtering it with no
  cache at all.
\<close>

theorem search_cache_agrees_with_fields:
  "matches All q (r\<lparr>search_blob := Some (blob_of r)\<rparr>) = matches All q (r\<lparr>search_blob := None\<rparr>)
   \<and> map (\<lambda>r. r\<lparr>search_blob := None\<rparr>) (filter (matches t q) (build_search_cache xs))
     = filter (matches t q) (map (\<lambda>r. r\<lparr>search_blob := None\<rparr>) xs)"
proof
  show "matches All q (r\<lparr>search_blob := Some (blob_of r)\<rparr>) = matches All q (r\<lparr>search_blob := None\<rparr>)"
    by simp
  show "map (\<lambda>r. r\<lparr>search_blob := None\<rparr>) (filter (matches t q) (build_search_cache xs))
     = filter (matches t q) (map (\<lambda>r. r\<lparr>search_blob := None\<rparr>) xs)"
  proof (induction xs)
    case Nil
    show ?case by (simp add: build_search_cache_def)
  next
    case (Cons x xs)
    have m: "matches t q (x\<lparr>search_blob := Some (blob_of x)\<rparr>) = matches t q (x\<lparr>search_blob := None\<rparr>)"
      by (rule matches_cached)
    from Cons m show ?case by (simp add: build_search_cache_def)
  qed
qed

subsection \<open>The empty query\<close>

lemma bar_notin_scope_name: "CHR ''|'' \<notin> set (scope_name t)"
  by (cases t) simp_all

lemma key_of_empty_query:
  assumes "q @ CHR ''|'' # scope_name t = CHR ''|'' # scope_name t'"
  shows "q = []"
proof (cases q)
  case Nil
  then show ?thesis .
next
  case (Cons c cs)
  with assms have "scope_name t' = cs @ CHR ''|'' # scope_name t" by simp
  then have "CHR ''|'' \<in> set (scope_name t')" by simp
  with bar_notin_scope_name show ?thesis by blast
qed

lemma shows_all_apply_search_filter:
  assumes "empty_query_shows_all s"
  shows "empty_query_shows_all (apply_search_filter query s)"
proof -
  define q where "q = lower (strip query)"
  define ft where "ft = (case filter_type_var s of None \<Rightarrow> All | Some t \<Rightarrow> t)"
  show ?thesis
  proof (cases "last_filter s = Some (q @ CHR ''|'' # scope_name ft)")
    case True
    then have "apply_search_filter query s = s"
      by (simp add: apply_search_filter_def q_def ft_def)
    with assms show ?thesis by simp
  next
    case False
    show ?thesis
    proof (cases "q = []")
      case True
      with False have "filtered_emails (apply_search_filter query s) = emails_data s"
        and "emails_data (apply_search_filter query s) = emails_data s"
        by (simp_all add: apply_search_filter_def q_def ft_def Let_def)
      then show ?thesis by (simp add: empty_query_shows_all_def)
    next
      case nonempty: False
      with False have "last_filter (apply_search_filter query s) = Some (q @ CHR ''|'' # scope_name ft)"
        by (simp add: apply_search_filter_def q_def ft_def Let_def)
      moreover have "q @ CHR ''|'' # scope_name ft \<noteq> CHR ''|'' # scope_name t" for t
        using key_of_empty_query nonempty by blast
      ultimately show ?thesis by (simp add: empty_query_shows_all_def)
    qed
  qed
qed

lemma shows_all_on_fetch_done:
  "empty_query_shows_all s \<Longrightarrow> empty_query_shows_all (on_fetch_done d e st s)"
  unfolding empty_query_shows_all_def on_fetch_done_def Let_def
  by (auto split: option.splits)

lemma shows_all_fetch_emails:
  "empty_query_shows_all s \<Longrightarrow> empty_query_shows_all (fetch_emails s)"
  unfolding empty_query_shows_all_def fetch_emails_def Let_def
  by (auto split: date_entry.splits)

lemma shows_all_open_dashboard:
  "empty_query_shows_all s \<Longrightarrow> empty_query_shows_all (open_dashboard s)"
  unfolding empty_query_shows_all_def open_dashboard_def create_dashboard_screen_def
  by auto

lemma shows_all_step:
  assumes "empty_query_shows_all s"
  shows "empty_query_shows_all (step s ev)"
proof (cases ev)
  case (Type_query q)
  from assms have "empty_query_shows_all (s\<lparr>search_var := q\<rparr>)"
    by (simp add: empty_query_shows_all_def)
  then show ?thesis using Type_query by (simp add: shows_all_apply_search_filter)
next
  case (Choose_scope t)
  from assms have "empty_query_shows_all (s\<lparr>filter_type_var := Some t\<rparr>)"
    by (simp add: empty_query_shows_all_def)
  then show ?thesis using Choose_scope by (simp add: shows_all_apply_search_filter)
next
  case Key_fetch
  with assms show ?thesis by (simp add: shows_all_fetch_emails)
next
  case (Fetch_done d e st)
  with assms show ?thesis by (simp add: shows_all_on_fetch_done)
next
  case Open_dashboard
  with assms show ?thesis by (simp add: shows_all_open_dashboard)
next
  case Close_dashboard
  with assms show ?thesis by (simp add: empty_query_shows_all_def)
next
  case (Set_dates d1 d2)
  with assms show ?thesis by (simp add: empty_query_shows_all_def)
qed

lemma shows_all_run: "empty_query_shows_all s \<Longrightarrow> empty_query_shows_all (run s evs)"
  unfolding run_def by (induction evs arbitrary: s) (simp_all add: shows_all_step)

lemma shows_all_init: "empty_query_shows_all (init d1 d2 sv u p demo)"
  by (simp add: empty_query_shows_all_def init_def)

lemma empty_query_result:
  assumes "empty_query_shows_all s" and "lower (strip query) = []"
  shows "filtered_emails (apply_search_filter query s) = emails_data s"
proof -
  define ft where "ft = (case filter_type_var s of None \<Rightarrow> All | Some t \<Rightarrow> t)"
  show ?thesis
  proof (cases "last_filter s = Some (CHR ''|'' # scope_name ft)")
    case True
    then have "apply_search_filter query s = s"
      using assms(2) by (simp add: apply_search_filter_def ft_def)
    moreover from True assms(1) have "filtered_emails s = emails_data s"
      unfolding empty_query_shows_all_def by auto
    ultimately show ?thesis by simp
  next
    case False
    then show ?thesis
      using assms(2) by (simp add: apply_search_filter_def ft_def Let_def)
  qed
qed

text \<open>
  C8. After any sequence of events of the interface (fetches, results, earlier queries,
  changes of scope), and for every filter scope, a query that is empty once stripped
  shows the whole collection installed at that moment.
\<close>

theorem empty_query_shows_whole_collection:
  assumes "lower (strip query) = []"
  shows "filtered_emails
           (apply_search_filter query ((run (init d1 d2 sv u p demo) evs)\<lparr>filter_type_var := ft\<rparr>))
         = emails_data (run (init d1 d2 sv u p demo) evs)"
proof -
  have "empty_query_shows_all (run (init d1 d2 sv u p demo) evs)"
    by (rule shows_all_run [OF shows_all_init])
  then have "empty_query_shows_all ((run (init d1 d2 sv u p demo) evs)\<lparr>filter_type_var := ft\<rparr>)"
    by (simp add: empty_query_shows_all_def)
  from empty_query_result [OF this assms] show ?thesis by simp
qed

theorem empty_query_shows_whole_collection_witness:
  "lower (strip ''  '') = []
   \<and> filtered_emails
       (apply_search_filter ''  ''
          ((run (init (Parsed jan1) (Parsed jan1) ''Gmail'' ''user@example.com'' ''secret'' False)
              [Fetch_done [invoice_rec, meeting_rec] None ''Found 2 emails'', Open_dashboard,
               Type_query ''invoice''])\<lparr>filter_type_var := Some Subject\<rparr>))
     = emails_data
         (run (init (Parsed jan1) (Parsed jan1) ''Gmail'' ''user@example.com'' ''secret'' False)
            [Fetch_done [invoice_rec, meeting_rec] None ''Found 2 emails'', Open_dashboard,
             Type_query ''invoice''])"
proof -
  have h: "lower (strip ''  '') = []" by code_simp
  from h empty_query_shows_whole_collection [OF h] show ?thesis by blast
qed

subsection \<open>Frame facts of the interface functions\<close>

lemma on_fetch_done_frame:
  "email_var (on_fetch_done data error status_text s) = email_var s"
  "password_var (on_fetch_done data error status_text s) = password_var s"
  "server_var (on_fetch_done data error status_text s) = server_var s"
  "start_date_var (on_fetch_done data error status_text s) = start_date_var s"
  "end_date_var (on_fetch_done data error status_text s) = end_date_var s"
  "demo_mode_var (on_fetch_done data error status_text s) = demo_mode_var s"
  "threads (on_fetch_done data error status_text s) = threads s"
  by (simp_all add: on_fetch_done_def Let_def split: option.splits)

lemma on_fetch_done_success:
  "emails_data (on_fetch_done data None status_text s) = build_search_cache data"
  "filtered_emails (on_fetch_done data None status_text s) = build_search_cache data"
  by (simp_all add: on_fetch_done_def Let_def)

lemma on_fetch_done_error:
  "emails_data (on_fetch_done data (Some exc) status_text s) = emails_data s"
  "filtered_emails (on_fetch_done data (Some exc) status_text s) = filtered_emails s"
  "last_filter (on_fetch_done data (Some exc) status_text s) = last_filter s"
  "filter_type_var (on_fetch_done data (Some exc) status_text s) = filter_type_var s"
  "search_var (on_fetch_done data (Some exc) status_text s) = search_var s"
  by (simp_all add: on_fetch_done_def Let_def)

lemma fetch_emails_valid:
  assumes "start_date_var s = Parsed a" and "end_date_var s = Parsed b" and "a \<le> b"
  shows "threads (fetch_emails s) =
           threads s @ [\<lparr>use_demo = demo_mode_var s, job_start = a, job_end = b\<rparr>]"
    and "emails_data (fetch_emails s) = emails_data s"
    and "filtered_emails (fetch_emails s) = filtered_emails s"
    and "email_var (fetch_emails s) = email_var s"
    and "password_var (fetch_emails s) = password_var s"
    and "server_var (fetch_emails s) = server_var s"
    and "start_date_var (fetch_emails s) = start_date_var s"
    and "end_date_var (fetch_emails s) = end_date_var s"
    and "demo_mode_var (fetch_emails s) = demo_mode_var s"
    and "fetch_button_disabled (fetch_emails s)"
    and "loading (fetch_emails s)"
  using assms by (simp_all add: fetch_emails_def)

lemma user0_fields:
  "start_date_var user0 = Parsed jan1" "end_date_var user0 = Parsed jan1"
  "email_var user0 = ''user@example.com''" "password_var user0 = ''secret''"
  "server_var user0 = ''Gmail''" "demo_mode_var user0 = False" "threads user0 = []"
  "emails_data user0 = []" "filtered_emails user0 = []" "display user0 = []"
  "fetch_button_disabled user0 = False"
  by (simp_all add: user0_def init_def)

lemma strip_user0:
  "strip ''user@example.com'' = ''user@example.com''" "strip ''secret'' = ''secret''"
  by code_simp+

subsection \<open>A failed retrieval\<close>

lemma complete_failure:
  assumes "i < length (threads s)" and "\<not> use_demo (threads s ! i)"
    and "snd (fetch_real_emails srv s (job_start (threads s ! i)) (job_end (threads s ! i))) = Inl exc"
  shows "complete srv dataset i s = s\<lparr>threads := take i (threads s) @ drop (Suc i) (threads s)\<rparr>"
  using assms by (simp add: complete_def worker_def)

text \<open>
  C3. When the retrieval of a worker ends with an exception, the end of that worker
  leaves the installed collection, the filtered list, the remembered filter, the filter
  scope and the query text as they were, since its callback never reaches
  \<^verbatim>\<open>_on_fetch_done\<close>; and \<^verbatim>\<open>_on_fetch_done\<close> itself, whenever it is called with
  an error, returns before it assigns any of them.
\<close>

theorem failed_retrieval_keeps_collection:
  assumes "i < length (threads s)" and "\<not> use_demo (threads s ! i)"
    and "snd (fetch_real_emails srv s (job_start (threads s ! i)) (job_end (threads s ! i))) = Inl exc"
  shows "emails_data (complete srv dataset i s) = emails_data s
       \<and> filtered_emails (complete srv dataset i s) = filtered_emails s
       \<and> last_filter (complete srv dataset i s) = last_filter s
       \<and> filter_type_var (complete srv dataset i s) = filter_type_var s
       \<and> search_var (complete srv dataset i s) = search_var s
       \<and> emails_data (on_fetch_done data (Some exc) status_text s) = emails_data s
       \<and> filtered_emails (on_fetch_done data (Some exc) status_text s) = filtered_emails s
       \<and> last_filter (on_fetch_done data (Some exc) status_text s) = last_filter s
       \<and> filter_type_var (on_fetch_done data (Some exc) status_text s) = filter_type_var s
       \<and> search_var (on_fetch_done data (Some exc) status_text s) = search_var s"
proof -
  have "complete srv dataset i s = s\<lparr>threads := take i (threads s) @ drop (Suc i) (threads s)\<rparr>"
    by (rule complete_failure [OF assms])
  then show ?thesis by (simp add: on_fetch_done_error)
qed

theorem failed_retrieval_keeps_collection_witness:
  "emails_data (complete rejecting_server [] 0
      (fetch_emails (on_fetch_done [invoice_rec, meeting_rec] None ''Found 2 emails'' user0)))
     = build_search_cache [invoice_rec, meeting_rec]
   \<and> filtered_emails (complete rejecting_server [] 0
      (fetch_emails (on_fetch_done [invoice_rec, meeting_rec] None ''Found 2 emails'' user0)))
     = build_search_cache [invoice_rec, meeting_rec]"
proof -
  define s where
    "s = fetch_emails (on_fetch_done [invoice_rec, meeting_rec] None ''Found 2 emails'' user0)"
  have th: "threads s = [\<lparr>use_demo = False, job_start = jan1, job_end = jan1\<rparr>]"
    unfolding s_def by (simp add: fetch_emails_valid on_fetch_done_frame user0_fields)
  have f: "email_var s = ''user@example.com''" "password_var s = ''secret''"
    "server_var s = ''Gmail''"
    unfolding s_def by (simp_all add: fetch_emails_valid on_fetch_done_frame user0_fields)
  have d: "emails_data s = build_search_cache [invoice_rec, meeting_rec]"
    "filtered_emails s = build_search_cache [invoice_rec, meeting_rec]"
    unfolding s_def
    by (simp_all add: fetch_emails_valid on_fetch_done_frame on_fetch_done_success user0_fields)
  have h1: "0 < length (threads s)" and h2: "\<not> use_demo (threads s ! 0)"
    by (simp_all add: th)
  have "snd (fetch_real_emails rejecting_server s jan1 jan1) =
      Inl (Py_error ''IMAP authentication/search error: [AUTHENTICATIONFAILED] Invalid credentials (Failure)'')"
    by (simp add: fetch_real_emails_def f strip_user0 get_server_config_def rejecting_server_def
        mailbox_server_def session_def logged_def)
  then have h3: "snd (fetch_real_emails rejecting_server s (job_start (threads s ! 0))
        (job_end (threads s ! 0))) =
      Inl (Py_error ''IMAP authentication/search error: [AUTHENTICATIONFAILED] Invalid credentials (Failure)'')"
    by (simp add: th)
  from failed_retrieval_keeps_collection [OF h1 h2 h3, of "[]"] d
  show ?thesis unfolding s_def by simp
qed

subsection \<open>The retrieval\<close>

lemma snd_logged [simp]: "snd (logged c p) = snd p"
  by (simp add: logged_def)

lemma fst_logged [simp]: "fst (logged c p) = c # fst p"
  by (simp add: logged_def)

lemma snd_map_prod_id [simp]: "snd (map_prod id f p) = f (snd p)"
  by (cases p) simp

lemma fst_map_prod_id [simp]: "fst (map_prod id f p) = fst p"
  by (cases p) simp

lemma sort_newest_first_sorted: "sorted_wrt (\<lambda>x y. date y \<le> date x) (sort_newest_first xs)"
proof -
  have "sorted (map date (sort_key date (rev xs)))" by simp
  then have "sorted_wrt (\<lambda>x y. date x \<le> date y) (sort_key date (rev xs))"
    by (simp add: sorted_map)
  then show ?thesis
    unfolding sort_newest_first_def by (simp add: sorted_wrt_rev)
qed

lemma sort_newest_first_stable:
  "filter (\<lambda>r. date r = k) (sort_newest_first xs) = filter (\<lambda>r. date r = k) xs"
proof -
  have "filter (\<lambda>r. date r = k) (sort_key date (rev xs)) = filter (\<lambda>r. date r = k) (rev xs)"
    by (rule sort_key_stable)
  then show ?thesis
    unfolding sort_newest_first_def by (simp add: rev_filter [symmetric])
qed

lemma sort_newest_first_length [simp]: "length (sort_newest_first xs) = length xs"
  by (simp add: sort_newest_first_def)

lemma build_record_date:
  "build_record a m = Inr r \<Longrightarrow>
     date r = (case date_hdr m of Date_absent \<Rightarrow> a | Date_unparseable \<Rightarrow> a
               | Date_naive d \<Rightarrow> d | Date_aware d \<Rightarrow> d)"
  by (cases "date_hdr m")
     (auto simp: build_record_def Let_def split: sum.splits prod.splits)

lemma fetch_loop_dates:
  "snd (fetch_loop srv a ids) = Inr us \<Longrightarrow>
     map date us =
       map (\<lambda>m. case date_hdr m of Date_absent \<Rightarrow> a | Date_unparseable \<Rightarrow> a
                  | Date_naive d \<Rightarrow> d | Date_aware d \<Rightarrow> d)
         (fetched_messages srv ids)"
proof (induction ids arbitrary: us)
  case Nil
  then show ?case by simp
next
  case (Cons i ids)
  show ?case
  proof (cases "imap_fetch srv i")
    case (Inl e)
    with Cons.prems show ?thesis by simp
  next
    case (Inr p)
    obtain status md where p: "p = (status, md)" by (cases p)
    show ?thesis
    proof (cases "status = ''OK''")
      case False
      with Cons Inr p show ?thesis by (cases md) simp_all
    next
      case True
      show ?thesis
      proof (cases md)
        case No_data
        with Cons Inr p True show ?thesis by simp
      next
        case Unparsable
        with Cons Inr p True show ?thesis by simp
      next
        case (Parsed_msg m)
        show ?thesis
        proof (cases "build_record a m")
          case (Inl e)
          with Cons.prems Inr p True Parsed_msg show ?thesis by simp
        next
          case br: (Inr r)
          from Cons.prems Inr p True Parsed_msg br
          obtain vs where vs: "snd (fetch_loop srv a ids) = Inr vs" and us: "us = r # vs"
            by (cases "snd (fetch_loop srv a ids)") auto
          from Cons.IH [OF vs] build_record_date [OF br] us Inr p True Parsed_msg
          show ?thesis by simp
        qed
      qed
    qed
  qed
qed

lemma session_Inr:
  assumes "snd (session srv u p a b) = Inr rs"
  shows "\<exists>us. snd (fetch_loop srv a (found_ids srv a b)) = Inr us \<and> rs = sort_newest_first us"
proof -
  from assms obtain criteria where c: "search_criteria a b = Inr criteria"
    by (cases "search_criteria a b")
       (auto simp: session_def split: option.splits sum.splits if_splits)
  from assms c obtain status ids where r: "imap_search srv criteria = Inr (status, ids)"
    by (cases "imap_search srv criteria")
       (auto simp: session_def split: option.splits sum.splits if_splits)
  have f: "found_ids srv a b = ids" using c r by (simp add: found_ids_def)
  show ?thesis
  proof (cases "ids = []")
    case True
    with assms c r have "rs = []"
      by (auto simp: session_def split: option.splits sum.splits if_splits)
    with True f show ?thesis by (simp add: sort_newest_first_def)
  next
    case False
    with assms c r have "map_sum id sort_newest_first (snd (fetch_loop srv a ids)) = Inr rs"
      by (auto simp: session_def split: option.splits sum.splits if_splits)
    then obtain us where "snd (fetch_loop srv a ids) = Inr us" "rs = sort_newest_first us"
      by (cases "snd (fetch_loop srv a ids)") auto
    with f show ?thesis by auto
  qed
qed

lemma fetch_real_emails_Inr:
  assumes "snd (fetch_real_emails srv s a b) = Inr rs"
  shows "\<exists>us. snd (fetch_loop srv a (found_ids srv a b)) = Inr us \<and> rs = sort_newest_first us"
proof -
  have "snd (session srv (strip (email_var s)) (strip (password_var s)) a b) = Inr rs"
  proof -
    obtain l r where lr: "session srv (strip (email_var s)) (strip (password_var s)) a b = (l, r)"
      by (cases "session srv (strip (email_var s)) (strip (password_var s)) a b")
    with assms have "map_sum reraise id r = Inr rs"
      by (auto simp: fetch_real_emails_def Let_def split: if_splits prod.splits option.splits)
    then have "r = Inr rs" by (cases r) auto
    with lr show ?thesis by simp
  qed
  then show ?thesis by (rule session_Inr)
qed

lemma add_one_day_jan1: "add_one_day jan1 = Inr (jan1 + one_day)"
  by (simp add: add_one_day_def jan1_def one_day_def max_datetime_def)

lemma build_record_plain_msg:
  "build_record a (plain_msg dh subj ''text'') =
     Inr (alice_rec subj (case msg_dt dh of None \<Rightarrow> a | Some d \<Rightarrow> d))"
  by (simp add: build_record_def plain_msg_def decode_header_def extract_email_body_def
      parse_sender_def alice_rec_def MAX_LEN_def strip_quotes_def, code_simp)

lemma mailbox_retrieval:
  "snd (fetch_real_emails (mailbox_server box) user0 jan1 jan1) =
     (if box = [] then Inr []
      else map_sum reraise sort_newest_first
             (snd (fetch_loop (mailbox_server box) jan1 (map fst box))))"
proof -
  have "map_sum reraise id (map_sum id sort_newest_first x) = map_sum reraise sort_newest_first x"
    for x :: "exn + email_rec list"
    by (cases x) simp_all
  then show ?thesis
    by (simp add: fetch_real_emails_def user0_fields strip_user0 get_server_config_def
        session_def search_criteria_def add_one_day_jan1 split_beta mailbox_server_def)
qed

lemma fetch_tie_box:
  "snd (fetch_real_emails (mailbox_server tie_box) user0 jan1 jan1) =
     Inr [alice_rec ''second'' (jan1 + 9), alice_rec ''first'' (jan1 + 5),
          alice_rec ''third'' (jan1 + 5)]"
  unfolding mailbox_retrieval
  by (simp add: tie_box_def mailbox_server_def build_record_plain_msg sort_newest_first_def)
     (simp add: alice_rec_def)

lemma fetch_undated_box:
  "snd (fetch_real_emails (mailbox_server undated_box) user0 jan1 jan1) =
     Inr [alice_rec ''first'' (jan1 + 9), alice_rec ''second'' jan1, alice_rec ''third'' jan1]"
  unfolding mailbox_retrieval
  by (simp add: undated_box_def mailbox_server_def build_record_plain_msg sort_newest_first_def)
     (simp add: alice_rec_def)

text \<open>
  C4. The list returned by a completed retrieval is sorted by date, newest first, and for
  every date the records with that date stand in the order in which the loop fetched
  them.
\<close>

theorem retrieval_sorted_newest_first:
  assumes "snd (fetch_real_emails srv s a b) = Inr rs"
  shows "sorted_wrt (\<lambda>x y. date y \<le> date x) rs
       \<and> (\<exists>us. snd (fetch_loop srv a (found_ids srv a b)) = Inr us
             \<and> (\<forall>k. filter (\<lambda>r. date r = k) rs = filter (\<lambda>r. date r = k) us))"
proof -
  from fetch_real_emails_Inr [OF assms] obtain us
    where us: "snd (fetch_loop srv a (found_ids srv a b)) = Inr us" and rs: "rs = sort_newest_first us"
    by blast
  from rs have "sorted_wrt (\<lambda>x y. date y \<le> date x) rs"
    by (simp add: sort_newest_first_sorted)
  moreover from rs have "\<forall>k. filter (\<lambda>r. date r = k) rs = filter (\<lambda>r. date r = k) us"
    by (simp add: sort_newest_first_stable)
  ultimately show ?thesis using us by blast
qed

theorem retrieval_sorted_newest_first_witness:
  "sorted_wrt (\<lambda>x y. date y \<le> date x)
     [alice_rec ''second'' (jan1 + 9), alice_rec ''first'' (jan1 + 5), alice_rec ''third'' (jan1 + 5)]
   \<and> (\<exists>us. snd (fetch_loop (mailbox_server tie_box) jan1
                 (found_ids (mailbox_server tie_box) jan1 jan1)) = Inr us
         \<and> (\<forall>k. filter (\<lambda>r. date r = k)
                  [alice_rec ''second'' (jan1 + 9), alice_rec ''first'' (jan1 + 5),
                   alice_rec ''third'' (jan1 + 5)]
                = filter (\<lambda>r. date r = k) us))"
  by (rule retrieval_sorted_newest_first [OF fetch_tie_box])

text \<open>
  C5. A completed retrieval returns one record for every message that was fetched with
  status OK and parsed; the dates of the records, before the sort, are the dates of those
  messages in order, with the start of the range for a message whose Date header is
  absent or does not parse.
\<close>

theorem every_record_has_timestamp:
  assumes "snd (fetch_real_emails srv s a b) = Inr rs"
  shows "length rs = length (fetched_messages srv (found_ids srv a b))
       \<and> (\<exists>us. rs = sort_newest_first us
             \<and> map date us =
                 map (\<lambda>m. case date_hdr m of Date_absent \<Rightarrow> a | Date_unparseable \<Rightarrow> a
                            | Date_naive d \<Rightarrow> d | Date_aware d \<Rightarrow> d)
                   (fetched_messages srv (found_ids srv a b)))"
proof -
  from fetch_real_emails_Inr [OF assms] obtain us
    where us: "snd (fetch_loop srv a (found_ids srv a b)) = Inr us" and rs: "rs = sort_newest_first us"
    by blast
  have d: "map date us =
      map (\<lambda>m. case date_hdr m of Date_absent \<Rightarrow> a | Date_unparseable \<Rightarrow> a
                 | Date_naive d \<Rightarrow> d | Date_aware d \<Rightarrow> d)
        (fetched_messages srv (found_ids srv a b))"
    by (rule fetch_loop_dates [OF us])
  from arg_cong [OF d, of length]
  have "length us = length (fetched_messages srv (found_ids srv a b))"
    by simp
  with rs have "length rs = length (fetched_messages srv (found_ids srv a b))" by simp
  with rs d show ?thesis by blast
qed

theorem every_record_has_timestamp_witness:
  "length [alice_rec ''first'' (jan1 + 9), alice_rec ''second'' jan1, alice_rec ''third'' jan1]
     = length (fetched_messages (mailbox_server undated_box)
                 (found_ids (mailbox_server undated_box) jan1 jan1))
   \<and> (\<exists>us. [alice_rec ''first'' (jan1 + 9), alice_rec ''second'' jan1, alice_rec ''third'' jan1]
               = sort_newest_first us
         \<and> map date us =
             map (\<lambda>m. case date_hdr m of Date_absent \<Rightarrow> jan1 | Date_unparseable \<Rightarrow> jan1
                        | Date_naive d \<Rightarrow> d | Date_aware d \<Rightarrow> d)
               (fetched_messages (mailbox_server undated_box)
                  (found_ids (mailbox_server undated_box) jan1 jan1)))"
  by (rule every_record_has_timestamp [OF fetch_undated_box])

subsection \<open>The search criteria\<close>

lemma sent_criteria_append: "sent_criteria (xs @ ys) = sent_criteria xs @ sent_criteria ys"
  by (induction xs rule: sent_criteria.induct) simp_all

lemma sent_criteria_fetch_loop: "sent_criteria (fst (fetch_loop srv a ids)) = []"
proof (induction ids)
  case Nil
  show ?case by simp
next
  case (Cons i ids)
  then show ?case
    by (auto split: sum.splits prod.splits message_data.splits)
qed

lemma sent_criteria_session:
  "sent_criteria (fst (session srv u p a b)) =
     (case imap_login srv u p of
        Some e \<Rightarrow> []
      | None \<Rightarrow>
          (case imap_select srv of
             Inl e \<Rightarrow> []
           | Inr status \<Rightarrow>
               if status \<noteq> ''OK'' then []
               else (case search_criteria a b of Inl e \<Rightarrow> [] | Inr criteria \<Rightarrow> [criteria])))"
  by (auto simp: session_def sent_criteria_fetch_loop split: option.splits sum.splits prod.splits)

lemma sent_criteria_fetch_real_emails:
  "sent_criteria (fst (fetch_real_emails srv s a b)) =
     (if strip (email_var s) = [] \<or> strip (password_var s) = [] then []
      else (case imap_connect srv (fst (get_server_config s)) (snd (get_server_config s)) of
              Some e \<Rightarrow> []
            | None \<Rightarrow>
                sent_criteria (fst (session srv (strip (email_var s)) (strip (password_var s)) a b))))"
  by (auto simp: fetch_real_emails_def Let_def sent_criteria_append
      split: option.splits prod.splits)

lemma search_criteria_Inr:
  "search_criteria a b = Inr c \<Longrightarrow>
     c = ''(SINCE '' @ [CHR 0x22] @ strftime_d_b_Y a @ [CHR 0x22] @ '' BEFORE '' @
         [CHR 0x22] @ strftime_d_b_Y (b + one_day) @ [CHR 0x22] @ '')''"
  by (auto simp: search_criteria_def add_one_day_def Let_def split: if_splits)

lemma search_criteria_in_range:
  "b + one_day \<le> max_datetime \<Longrightarrow>
     search_criteria a b =
       Inr (''(SINCE '' @ [CHR 0x22] @ strftime_d_b_Y a @ [CHR 0x22] @ '' BEFORE '' @
            [CHR 0x22] @ strftime_d_b_Y (b + one_day) @ [CHR 0x22] @ '')'')"
  by (simp add: search_criteria_def add_one_day_def Let_def)

text \<open>
  C6. Every search criteria that a retrieval sends to the server names the start date
  after SINCE and the day after the end date after BEFORE; and a retrieval with
  credentials, whose connection, login and selection of the inbox succeed and whose end
  date has a next day, sends exactly that one search.
\<close>

theorem search_bounds_start_and_day_after_end:
  "(\<forall>c \<in> set (sent_criteria (fst (fetch_real_emails srv s a b))).
       c = ''(SINCE '' @ [CHR 0x22] @ strftime_d_b_Y a @ [CHR 0x22] @ '' BEFORE '' @
           [CHR 0x22] @ strftime_d_b_Y (b + one_day) @ [CHR 0x22] @ '')'')
   \<and> (strip (email_var s) \<noteq> [] \<and> strip (password_var s) \<noteq> []
        \<and> imap_connect srv (fst (get_server_config s)) (snd (get_server_config s)) = None
        \<and> imap_login srv (strip (email_var s)) (strip (password_var s)) = None
        \<and> imap_select srv = Inr ''OK'' \<and> b + one_day \<le> max_datetime
      \<longrightarrow> sent_criteria (fst (fetch_real_emails srv s a b)) =
            [''(SINCE '' @ [CHR 0x22] @ strftime_d_b_Y a @ [CHR 0x22] @ '' BEFORE '' @
             [CHR 0x22] @ strftime_d_b_Y (b + one_day) @ [CHR 0x22] @ '')''])"
proof (intro conjI ballI impI)
  fix c
  assume "c \<in> set (sent_criteria (fst (fetch_real_emails srv s a b)))"
  then have "search_criteria a b = Inr c"
    by (auto simp: sent_criteria_fetch_real_emails sent_criteria_session
        split: if_splits option.splits sum.splits)
  then show "c = ''(SINCE '' @ [CHR 0x22] @ strftime_d_b_Y a @ [CHR 0x22] @ '' BEFORE '' @
           [CHR 0x22] @ strftime_d_b_Y (b + one_day) @ [CHR 0x22] @ '')''"
    by (rule search_criteria_Inr)
next
  assume h: "strip (email_var s) \<noteq> [] \<and> strip (password_var s) \<noteq> []
        \<and> imap_connect srv (fst (get_server_config s)) (snd (get_server_config s)) = None
        \<and> imap_login srv (strip (email_var s)) (strip (password_var s)) = None
        \<and> imap_select srv = Inr ''OK'' \<and> b + one_day \<le> max_datetime"
  then have "search_criteria a b =
       Inr (''(SINCE '' @ [CHR 0x22] @ strftime_d_b_Y a @ [CHR 0x22] @ '' BEFORE '' @
            [CHR 0x22] @ strftime_d_b_Y (b + one_day) @ [CHR 0x22] @ '')'')"
    by (simp add: search_criteria_in_range)
  with h show "sent_criteria (fst (fetch_real_emails srv s a b)) =
            [''(SINCE '' @ [CHR 0x22] @ strftime_d_b_Y a @ [CHR 0x22] @ '' BEFORE '' @
             [CHR 0x22] @ strftime_d_b_Y (b + one_day) @ [CHR 0x22] @ '')'']"
    by (simp add: sent_criteria_fetch_real_emails sent_criteria_session)
qed

lemma ord2ymd_jan1:
  "ord2ymd (Suc (jan1 div one_day)) = (2024, 1, 1)"
  "ord2ymd (Suc ((jan1 + one_day) div one_day)) = (2024, 1, 2)"
  by (simp_all add: ord2ymd_def jan1_def one_day_def Let_def days_before_month_def
      days_in_month_def)

lemma digit_values:
  "digit 0 = CHR ''0''" "digit (Suc 0) = CHR ''1''" "digit 2 = CHR ''2''" "digit 4 = CHR ''4''"
  by code_simp+

lemma strftime_jan1:
  "strftime_d_b_Y jan1 = ''01-Jan-2024''" "strftime_d_b_Y (jan1 + one_day) = ''02-Jan-2024''"
  by (simp_all add: strftime_d_b_Y_def ord2ymd_jan1 month_abbr_def digit_values)

theorem search_bounds_start_and_day_after_end_witness:
  "sent_criteria (fst (fetch_real_emails (mailbox_server tie_box) user0 jan1 jan1)) =
     [''(SINCE '' @ [CHR 0x22] @ ''01-Jan-2024'' @ [CHR 0x22] @ '' BEFORE '' @
      [CHR 0x22] @ ''02-Jan-2024'' @ [CHR 0x22] @ '')'']"
proof -
  have h: "strip (email_var user0) \<noteq> [] \<and> strip (password_var user0) \<noteq> []
        \<and> imap_connect (mailbox_server tie_box) (fst (get_server_config user0))
            (snd (get_server_config user0)) = None
        \<and> imap_login (mailbox_server tie_box) (strip (email_var user0))
            (strip (password_var user0)) = None
        \<and> imap_select (mailbox_server tie_box) = Inr ''OK'' \<and> jan1 + one_day \<le> max_datetime"
    by (simp add: user0_fields strip_user0 mailbox_server_def jan1_def one_day_def max_datetime_def)
  from search_bounds_start_and_day_after_end [of "mailbox_server tie_box" user0 jan1 jan1] h
  show ?thesis by (simp only: strftime_jan1) blast
qed

subsection \<open>Retrievals on concrete mailboxes\<close>

lemma fetch_real_emails_cong:
  assumes "email_var s = email_var s'" and "password_var s = password_var s'"
    and "server_var s = server_var s'"
  shows "fetch_real_emails srv s a b = fetch_real_emails srv s' a b"
proof -
  from assms(3) have "get_server_config s = get_server_config s'"
    by (simp add: get_server_config_def)
  with assms(1,2) show ?thesis by (simp add: fetch_real_emails_def Let_def)
qed

lemma build_record_odd_charset:
  "build_record a odd_charset_msg = Inl (Py_error ''unknown encoding: x-unknown'')"
  by (simp add: build_record_def odd_charset_msg_def plain_msg_def decode_header_def)

lemma fetch_even_box:
  "snd (fetch_real_emails (mailbox_server even_box) user0 jan1 jan1) =
     Inr [alice_rec ''third'' (jan1 + 9), alice_rec ''first'' (jan1 + 5)]"
  unfolding mailbox_retrieval
  by (simp add: even_box_def mailbox_server_def build_record_plain_msg sort_newest_first_def)
     (simp add: alice_rec_def)

text \<open>
  C1 (the code departs from it). In a mailbox of three messages whose second has a
  Subject with an undecodable charset, \<^verbatim>\<open>decode_header\<close> raises inside the loop; no
  handler of the loop catches it, and the retrieval ends with an exception instead of the
  two other records, which the same mailbox without that message does return.
\<close>

theorem one_bad_header_aborts_retrieval:
  "snd (fetch_real_emails (mailbox_server odd_box) user0 jan1 jan1) =
     Inl (Py_error ''IMAP connection failed: unknown encoding: x-unknown'')
   \<and> snd (fetch_real_emails (mailbox_server even_box) user0 jan1 jan1) =
     Inr [alice_rec ''third'' (jan1 + 9), alice_rec ''first'' (jan1 + 5)]"
proof
  show "snd (fetch_real_emails (mailbox_server odd_box) user0 jan1 jan1) =
     Inl (Py_error ''IMAP connection failed: unknown encoding: x-unknown'')"
    unfolding mailbox_retrieval
    by (simp add: odd_box_def mailbox_server_def build_record_plain_msg build_record_odd_charset)
  show "snd (fetch_real_emails (mailbox_server even_box) user0 jan1 jan1) =
     Inr [alice_rec ''third'' (jan1 + 9), alice_rec ''first'' (jan1 + 5)]"
    by (rule fetch_even_box)
qed

lemma extract_long_msg: "extract_email_body long_msg = replicate 201 CHR ''a''"
  by (simp add: extract_email_body_def long_msg_def plain_msg_def MAX_LEN_def)

lemma build_record_long_msg: "build_record a long_msg = Inr long_rec"
proof -
  have "strip_quotes (strip ''Alice'') = ''Alice''" by code_simp
  then show ?thesis
    by (simp add: build_record_def long_msg_def plain_msg_def decode_header_def
        extract_email_body_def MAX_LEN_def parse_sender_def long_rec_def)
qed

lemma fetch_long_box:
  "snd (fetch_real_emails (mailbox_server long_box) user0 jan1 jan1) = Inr [long_rec]"
  unfolding mailbox_retrieval
  by (simp add: long_box_def mailbox_server_def build_record_long_msg sort_newest_first_def)

text \<open>
  C7 (the code departs from it). For a message with 201 characters of body the loop
  stores 200 characters and the ellipsis in the record; the extracted body is kept
  nowhere, and the detail window of the installed collection shows the stored preview.
\<close>

theorem detail_view_shows_preview_only:
  "extract_email_body long_msg = replicate 201 CHR ''a''
   \<and> snd (fetch_real_emails (mailbox_server long_box) user0 jan1 jan1) = Inr [long_rec]
   \<and> body long_rec = replicate 200 CHR ''a'' @ ''...''
   \<and> full_body (emails_data (on_fetch_done [long_rec] None ''Found 1 emails'' user0))
        (table_row long_rec) = replicate 200 CHR ''a'' @ ''...''"
proof (intro conjI)
  show "extract_email_body long_msg = replicate 201 CHR ''a''" by (rule extract_long_msg)
  show "snd (fetch_real_emails (mailbox_server long_box) user0 jan1 jan1) = Inr [long_rec]"
    by (rule fetch_long_box)
  show "body long_rec = replicate 200 CHR ''a'' @ ''...''" by (simp add: long_rec_def)
  show "full_body (emails_data (on_fetch_done [long_rec] None ''Found 1 emails'' user0))
        (table_row long_rec) = replicate 200 CHR ''a'' @ ''...''"
    by (simp add: on_fetch_done_success build_search_cache_def full_body_def table_row_def)
       (simp add: long_rec_def)
qed

subsection \<open>Two retrievals in flight\<close>

lemma complete_first_success:
  assumes "threads s = j # js" and "\<not> use_demo j"
    and "snd (fetch_real_emails srv s (job_start j) (job_end j)) = Inr data"
  shows "complete srv dataset 0 s =
           on_fetch_done data None (''Found '' @ str_nat (length data) @ '' emails'')
             (s\<lparr>threads := js\<rparr>)"
  using assms by (simp add: complete_def worker_def)

lemma on_fetch_done_success_display:
  assumes "data \<noteq> []"
  shows "display (on_fetch_done data None status_text s) =
           display s @ [Notify_fetched (length data),
                        Show_info ''Success''
                          (''Successfully fetched '' @ str_nat (length data) @ '' emails.'')]"
  using assms by (simp add: on_fetch_done_def Let_def build_search_cache_def)

lemma str_nat_3: "str_nat 3 = ''3''"
  by code_simp

lemma fetch_tie_box_any:
  assumes "email_var s = email_var user0" and "password_var s = password_var user0"
    and "server_var s = server_var user0"
  shows "snd (fetch_real_emails (mailbox_server tie_box) s jan1 jan1) =
     Inr [alice_rec ''second'' (jan1 + 9), alice_rec ''first'' (jan1 + 5),
          alice_rec ''third'' (jan1 + 5)]"
  using fetch_real_emails_cong [OF assms] fetch_tie_box by simp

text \<open>
  C2 (the code departs from it). \<^verbatim>\<open>fetch_emails\<close> does not look at whether a
  retrieval is running: called a second time while the first worker is in flight (the
  Enter and Ctrl+R bindings call it although the button is disabled), it starts a second
  worker, and each of the two workers delivers a result.
\<close>

theorem second_start_is_not_rejected:
  "fetch_button_disabled (fetch_emails user0)
   \<and> threads (fetch_emails user0) = [\<lparr>use_demo = False, job_start = jan1, job_end = jan1\<rparr>]
   \<and> threads (fetch_emails (fetch_emails user0)) =
       [\<lparr>use_demo = False, job_start = jan1, job_end = jan1\<rparr>,
        \<lparr>use_demo = False, job_start = jan1, job_end = jan1\<rparr>]
   \<and> display (complete (mailbox_server tie_box) [] 0
               (complete (mailbox_server tie_box) [] 0 (fetch_emails (fetch_emails user0)))) =
       [Notify_fetched 3, Show_info ''Success'' ''Successfully fetched 3 emails.'',
        Notify_fetched 3, Show_info ''Success'' ''Successfully fetched 3 emails.'']"
proof -
  define j where "j = \<lparr>use_demo = False, job_start = jan1, job_end = jan1\<rparr>"
  define s1 where "s1 = fetch_emails user0"
  define s2 where "s2 = fetch_emails s1"
  define data where "data = [alice_rec ''second'' (jan1 + 9), alice_rec ''first'' (jan1 + 5),
          alice_rec ''third'' (jan1 + 5)]"
  have t1: "threads s1 = [j]" and b1: "fetch_button_disabled s1"
    and f1: "start_date_var s1 = Parsed jan1" "end_date_var s1 = Parsed jan1"
      "demo_mode_var s1 = False" "email_var s1 = email_var user0"
      "password_var s1 = password_var user0" "server_var s1 = server_var user0"
    unfolding s1_def j_def by (simp_all add: fetch_emails_valid user0_fields)
  have t2: "threads s2 = [j, j]"
    and f2: "email_var s2 = email_var user0" "password_var s2 = password_var user0"
      "server_var s2 = server_var user0" "display s2 = []"
    unfolding s2_def j_def using t1 f1
    by (simp_all add: fetch_emails_valid j_def)
       (simp add: fetch_emails_def s1_def user0_fields)
  define s3 where "s3 = complete (mailbox_server tie_box) [] 0 s2"
  have r2: "snd (fetch_real_emails (mailbox_server tie_box) s2 (job_start j) (job_end j)) = Inr data"
    unfolding data_def using fetch_tie_box_any [OF f2(1-3)] by (simp add: j_def)
  have s3: "s3 = on_fetch_done data None (''Found '' @ str_nat (length data) @ '' emails'')
      (s2\<lparr>threads := [j]\<rparr>)"
    unfolding s3_def using complete_first_success [OF _ _ r2, of "[j]"] t2 by (simp add: j_def)
  have ne: "data \<noteq> []" and len: "length data = 3" by (simp_all add: data_def)
  have t3: "threads s3 = [j]"
    and f3: "email_var s3 = email_var user0" "password_var s3 = password_var user0"
      "server_var s3 = server_var user0"
    unfolding s3 using f2 by (simp_all add: on_fetch_done_frame)
  have d3: "display s3 = [Notify_fetched 3, Show_info ''Success'' ''Successfully fetched 3 emails.'']"
    unfolding s3 using f2(4)
    by (simp add: on_fetch_done_success_display [OF ne] len str_nat_3)
  have r3: "snd (fetch_real_emails (mailbox_server tie_box) s3 (job_start j) (job_end j)) = Inr data"
    unfolding data_def using fetch_tie_box_any [OF f3] by (simp add: j_def)
  have s4: "complete (mailbox_server tie_box) [] 0 s3 =
      on_fetch_done data None (''Found '' @ str_nat (length data) @ '' emails'') (s3\<lparr>threads := []\<rparr>)"
    using complete_first_success [OF _ _ r3, of "[]"] t3 by (simp add: j_def)
  have d4: "display (complete (mailbox_server tie_box) [] 0 s3) =
      [Notify_fetched 3, Show_info ''Success'' ''Successfully fetched 3 emails.'',
       Notify_fetched 3, Show_info ''Success'' ''Successfully fetched 3 emails.'']"
    unfolding s4 using d3
    by (simp add: on_fetch_done_success_display [OF ne] len str_nat_3)
  from b1 t1 t2 d4 show ?thesis
    unfolding s3_def s2_def s1_def j_def by simp
qed

subsection \<open>The outcomes of a failed retrieval\<close>

lemma fetch_real_emails_with_credentials:
  assumes "strip (email_var s) \<noteq> []" and "strip (password_var s) \<noteq> []"
  shows "snd (fetch_real_emails srv s a b) =
     (case imap_connect srv (fst (get_server_config s)) (snd (get_server_config s)) of
        Some e \<Rightarrow> Inl (reraise e)
      | None \<Rightarrow>
          map_sum reraise id
            (snd (session srv (strip (email_var s)) (strip (password_var s)) a b)))"
  using assms
  by (simp add: fetch_real_emails_def Let_def split_beta split: option.splits)

lemma session_login_raises:
  "imap_login srv u p = Some e \<Longrightarrow> snd (session srv u p a b) = Inl e"
  by (simp add: session_def)

lemma session_search_not_ok:
  assumes "imap_login srv u p = None" and "imap_select srv = Inr ''OK''"
    and "search_criteria a b = Inr c" and "imap_search srv c = Inr (status, ids)"
    and "status \<noteq> ''OK''"
  shows "snd (session srv u p a b) = Inl (Py_error ''IMAP search failed'')"
  using assms by (simp add: session_def)

lemma search_criteria_jan1: "\<exists>c. search_criteria jan1 jan1 = Inr c"
  by (simp add: search_criteria_def add_one_day_jan1)

text \<open>
  C9 (the code departs from it). A login that the server rejects, a search that the
  server answers with NO and a host that cannot be reached make \<^verbatim>\<open>fetch_real_emails\<close>
  raise; the search failure is raised under the label of a connection failure, not under
  the label the code has for search errors. After each of the three the error callback
  of the worker dies, so the application is left in one and the same state: nothing is
  shown, the loading state stays and the fetch button stays disabled.
\<close>

theorem failure_kinds_leave_the_same_outcome:
  "snd (fetch_real_emails login_failed_server user0 jan1 jan1) =
     Inl (Py_error ''IMAP authentication/search error: LOGIN failed.'')
   \<and> snd (fetch_real_emails search_no_server user0 jan1 jan1) =
     Inl (Py_error ''IMAP connection failed: IMAP search failed'')
   \<and> snd (fetch_real_emails unreachable_server user0 jan1 jan1) =
     Inl (Py_error ''IMAP connection failed: timed out'')
   \<and> complete login_failed_server [] 0 (fetch_emails user0) = (fetch_emails user0)\<lparr>threads := []\<rparr>
   \<and> complete search_no_server [] 0 (fetch_emails user0) = (fetch_emails user0)\<lparr>threads := []\<rparr>
   \<and> complete unreachable_server [] 0 (fetch_emails user0) = (fetch_emails user0)\<lparr>threads := []\<rparr>
   \<and> display ((fetch_emails user0)\<lparr>threads := []\<rparr>) = []
   \<and> loading ((fetch_emails user0)\<lparr>threads := []\<rparr>)
   \<and> fetch_button_disabled ((fetch_emails user0)\<lparr>threads := []\<rparr>)"
proof -
  define s1 where "s1 = fetch_emails user0"
  define j where "j = \<lparr>use_demo = False, job_start = jan1, job_end = jan1\<rparr>"
  have t1: "threads s1 = [j]"
    and f1: "email_var s1 = email_var user0" "password_var s1 = password_var user0"
      "server_var s1 = server_var user0"
    and b1: "loading s1" "fetch_button_disabled s1"
    and d1: "display s1 = []"
    unfolding s1_def j_def
    by (simp_all add: fetch_emails_valid user0_fields)
       (simp add: fetch_emails_def user0_fields)
  have cred: "strip (email_var user0) \<noteq> []" "strip (password_var user0) \<noteq> []"
    by (simp_all add: user0_fields strip_user0)
  obtain c where c: "search_criteria jan1 jan1 = Inr c"
    using search_criteria_jan1 by blast
  have r1: "snd (fetch_real_emails login_failed_server user0 jan1 jan1) =
     Inl (Py_error ''IMAP authentication/search error: LOGIN failed.'')"
    by (simp add: fetch_real_emails_with_credentials [OF cred] login_failed_server_def
        mailbox_server_def session_login_raises)
  have r2: "snd (fetch_real_emails search_no_server user0 jan1 jan1) =
     Inl (Py_error ''IMAP connection failed: IMAP search failed'')"
    using session_search_not_ok [of search_no_server "strip (email_var user0)"
        "strip (password_var user0)" jan1 jan1 c "''NO''" "[]"] c
    by (simp add: fetch_real_emails_with_credentials [OF cred] search_no_server_def
        mailbox_server_def)
  have r3: "snd (fetch_real_emails unreachable_server user0 jan1 jan1) =
     Inl (Py_error ''IMAP connection failed: timed out'')"
    by (simp add: fetch_real_emails_with_credentials [OF cred] unreachable_server_def
        mailbox_server_def)
  have k: "complete srv [] 0 s1 = s1\<lparr>threads := []\<rparr>"
    if "snd (fetch_real_emails srv user0 jan1 jan1) = Inl exc" for srv exc
  proof -
    from that fetch_real_emails_cong [OF f1, of srv jan1 jan1]
    have "snd (fetch_real_emails srv s1 jan1 jan1) = Inl exc" by simp
    then have "snd (fetch_real_emails srv s1 (job_start (threads s1 ! 0))
        (job_end (threads s1 ! 0))) = Inl exc"
      by (simp add: t1 j_def)
    from complete_failure [OF _ _ this, of "[]"] t1 show ?thesis
      by (simp add: j_def)
  qed
  from r1 r2 r3 k [OF r1] k [OF r2] k [OF r3] b1 d1
  show ?thesis unfolding s1_def by simp
qed

end
